theory Spec2Isabelle
  imports Complex_Main "HOL-Library.Sublist"
begin

section \<open>Domain types (package models)\<close>

text \<open>
  Go strings are byte sequences: \<^typ>\<open>string\<close>. A \<open>time.Time\<close> is an instant,
  counted from the zero value of the type. A \<open>float64\<close> is a number, one of the two
  infinities, or NaN; the numbers are taken among the reals, since the operations below
  store and copy these fields and never compute with them.
\<close>

type_synonym time = int

datatype float64 = Num real | PosInf | NegInf | NaN


record Asset =
  ID :: string
  Tag :: string
  Name :: string
  Category :: string
  Status :: string
  Location :: string
  Department :: string
  AssignedTo :: string
  PurchaseDate :: string
  PurchaseCost :: float64
  CurrentValue :: float64
  Vendor :: string
  SerialNumber :: string
  Model :: string
  Warranty :: string
  Notes :: string
  CreatedAt :: time
  UpdatedAt :: time

text \<open>
  Field names are global in a theory, so the fields of the other structs that repeat a
  name of \<open>Asset\<close> carry a prefix: \<open>m\<close> for \<open>MaintenanceRecord\<close>, \<open>e\<close> for
  \<open>AuditEntry\<close>, \<open>f\<close> for \<open>AssetFilter\<close>.
\<close>

record MaintenanceRecord =
  mID :: string
  mAssetID :: string
  mDate :: string
  mType :: string
  mDescription :: string
  mCost :: float64
  mTechnician :: string
  mStatus :: string
  mCreatedAt :: time

record AuditEntry =
  eID :: string
  eAssetID :: string
  Timestamp :: time
  User :: string
  Action :: string
  Details :: string

record AssetFilter =
  fStatus :: string
  fCategory :: string
  fDepartment :: string
  fSearch :: string
  Limit :: int
  Offset :: int

section \<open>Library functions the store calls\<close>

text \<open>
  \<open>strings.ToLower\<close> lowers a string by the Unicode tables of Go's standard library,
  which are no part of this repository. The functions below that call it take it as
  their first argument, \<open>ToLower\<close>, and every theorem about them holds for every
  function in its place.
\<close>

text \<open>\<open>strings.Contains s substr\<close>: some position of \<open>s\<close> starts with \<open>substr\<close>.\<close>

fun HasPrefix :: "string \<Rightarrow> string \<Rightarrow> bool" where
  "HasPrefix s [] = True"
| "HasPrefix [] (p # ps) = False"
| "HasPrefix (c # cs) (p # ps) = (c = p \<and> HasPrefix cs ps)"

fun Contains :: "string \<Rightarrow> string \<Rightarrow> bool" where
  "Contains [] substr = (substr = [])"
| "Contains (c # cs) substr = (HasPrefix (c # cs) substr \<or> Contains cs substr)"

text \<open>
  \<open>fmt.Sprintf("%03d", n)\<close>: the decimal digits of \<open>n\<close>, padded with zeros on the left
  to width three; a minus sign comes first and counts in the width.
\<close>

definition digit_char :: "nat \<Rightarrow> char" where
  "digit_char d = char_of (48 + d)"

function digits :: "nat \<Rightarrow> string" where
  "digits n = (if n < 10 then [digit_char n] else digits (n div 10) @ [digit_char (n mod 10)])"
  by pat_completeness auto
termination
  by (relation "measure id") auto

declare digits.simps [simp del]

definition zero_pad :: "nat \<Rightarrow> string \<Rightarrow> string" where
  "zero_pad w ds = replicate (w - length ds) (CHR ''0'') @ ds"

definition Sprintf_03d :: "int \<Rightarrow> string" where
  "Sprintf_03d n =
     (if n < 0 then CHR ''-'' # zero_pad 2 (digits (nat (- n)))
      else zero_pad 3 (digits (nat n)))"

section \<open>The in-memory store (package store)\<close>

text \<open>
  The three maps and the counter of \<open>MemoryStore\<close>. The lock \<open>mu\<close> has no counterpart:
  every operation below is one critical section, run from start to end.
  \<open>nextID\<close> is a Go \<open>int\<close>, 64 bits wide on the usual targets; \<open>s.nextID++\<close> wraps.
\<close>

type_synonym error = string

record MemoryStore =
  assets :: "string \<rightharpoonup> Asset"
  maintenance :: "string \<rightharpoonup> MaintenanceRecord list"
  audit :: "string \<rightharpoonup> AuditEntry list"
  nextID :: int

definition wrap64 :: "int \<Rightarrow> int" where
  "wrap64 x = (x + 2 ^ 63) mod 2 ^ 64 - 2 ^ 63"

definition incr :: "int \<Rightarrow> int" where
  "incr n = wrap64 (n + 1)"

text \<open>Reading a map of slices at a key it does not hold gives the nil slice.\<close>

definition index_slices :: "(string \<rightharpoonup> 'a list) \<Rightarrow> string \<Rightarrow> 'a list" where
  "index_slices m k = (case m k of None \<Rightarrow> [] | Some xs \<Rightarrow> xs)"

subsection \<open>Sample data\<close>

definition sample_assets :: "Asset list" where
  "sample_assets = [
    \<lparr>ID = ''A001'', Tag = ''IT-LAP-001'', Name = ''MacBook Pro 16'' @ [CHR 0x22], Category = ''Laptops'', Status = ''active'', Location = ''HQ Floor 3'', Department = ''Engineering'', AssignedTo = ''John Smith'', PurchaseDate = ''2024-01-15'', PurchaseCost = Num 2499, CurrentValue = Num 2100, Vendor = ''Apple Inc.'', SerialNumber = ''C02XG123HKGY'', Model = ''MacBook Pro 16 M3'', Warranty = ''2027-01-15'', Notes = ''Primary development machine'', CreatedAt = 0, UpdatedAt = 0\<rparr>,
    \<lparr>ID = ''A002'', Tag = ''IT-LAP-002'', Name = ''ThinkPad X1 Carbon'', Category = ''Laptops'', Status = ''active'', Location = ''HQ Floor 2'', Department = ''Sales'', AssignedTo = ''Jane Doe'', PurchaseDate = ''2024-02-20'', PurchaseCost = Num 1899, CurrentValue = Num 1650, Vendor = ''Lenovo'', SerialNumber = ''PF3ABCD1'', Model = ''X1 Carbon Gen 11'', Warranty = ''2027-02-20'', Notes = '''', CreatedAt = 0, UpdatedAt = 0\<rparr>,
    \<lparr>ID = ''A003'', Tag = ''IT-MON-001'', Name = ''Dell U2723QE'', Category = ''Monitors'', Status = ''active'', Location = ''HQ Floor 3'', Department = ''Engineering'', AssignedTo = ''John Smith'', PurchaseDate = ''2024-01-15'', PurchaseCost = Num 799, CurrentValue = Num 700, Vendor = ''Dell'', SerialNumber = ''CN0M2K831234'', Model = ''UltraSharp 27 4K'', Warranty = ''2027-01-15'', Notes = ''4K USB-C Hub Monitor'', CreatedAt = 0, UpdatedAt = 0\<rparr>,
    \<lparr>ID = ''A004'', Tag = ''IT-SRV-001'', Name = ''Dell PowerEdge R750'', Category = ''Servers'', Status = ''active'', Location = ''Data Center'', Department = ''IT Operations'', AssignedTo = ''Unassigned'', PurchaseDate = ''2023-06-01'', PurchaseCost = Num 12500, CurrentValue = Num 10000, Vendor = ''Dell'', SerialNumber = ''SVCTAG001'', Model = ''PowerEdge R750xs'', Warranty = ''2026-06-01'', Notes = ''Primary application server'', CreatedAt = 0, UpdatedAt = 0\<rparr>,
    \<lparr>ID = ''A005'', Tag = ''IT-LAP-003'', Name = ''MacBook Air M2'', Category = ''Laptops'', Status = ''maintenance'', Location = ''IT Storage'', Department = ''Marketing'', AssignedTo = ''Bob Wilson'', PurchaseDate = ''2024-03-10'', PurchaseCost = Num 1299, CurrentValue = Num 1150, Vendor = ''Apple Inc.'', SerialNumber = ''C02YH456JKLY'', Model = ''MacBook Air 13 M2'', Warranty = ''2027-03-10'', Notes = ''Battery replacement scheduled'', CreatedAt = 0, UpdatedAt = 0\<rparr>,
    \<lparr>ID = ''A006'', Tag = ''IT-NET-001'', Name = ''Cisco Catalyst 9300'', Category = ''Network'', Status = ''active'', Location = ''Server Room A'', Department = ''IT Operations'', AssignedTo = ''Unassigned'', PurchaseDate = ''2023-01-20'', PurchaseCost = Num 4500, CurrentValue = Num 3800, Vendor = ''Cisco'', SerialNumber = ''FCW2345K001'', Model = ''C9300-48P'', Warranty = ''2026-01-20'', Notes = ''48-port PoE+ switch'', CreatedAt = 0, UpdatedAt = 0\<rparr>,
    \<lparr>ID = ''A007'', Tag = ''IT-PRN-001'', Name = ''HP LaserJet Pro'', Category = ''Printers'', Status = ''active'', Location = ''HQ Floor 2'', Department = ''Shared'', AssignedTo = ''Unassigned'', PurchaseDate = ''2024-04-05'', PurchaseCost = Num 549, CurrentValue = Num 500, Vendor = ''HP'', SerialNumber = ''VNB3R12345'', Model = ''M404dn'', Warranty = ''2025-04-05'', Notes = ''Department printer'', CreatedAt = 0, UpdatedAt = 0\<rparr>,
    \<lparr>ID = ''A008'', Tag = ''IT-LAP-004'', Name = ''Dell XPS 15'', Category = ''Laptops'', Status = ''retired'', Location = ''IT Storage'', Department = ''Finance'', AssignedTo = ''Unassigned'', PurchaseDate = ''2021-05-15'', PurchaseCost = Num 1799, CurrentValue = Num 0, Vendor = ''Dell'', SerialNumber = ''5CG123ABC'', Model = ''XPS 15 9510'', Warranty = ''2024-05-15'', Notes = ''End of life - data wiped'', CreatedAt = 0, UpdatedAt = 0\<rparr>,
    \<lparr>ID = ''A009'', Tag = ''IT-MON-002'', Name = ''LG 34WN80C-B'', Category = ''Monitors'', Status = ''active'', Location = ''HQ Floor 2'', Department = ''Sales'', AssignedTo = ''Jane Doe'', PurchaseDate = ''2024-02-20'', PurchaseCost = Num 699, CurrentValue = Num 600, Vendor = ''LG'', SerialNumber = ''LG34WN001'', Model = ''34WN80C-B'', Warranty = ''2027-02-20'', Notes = ''Ultrawide monitor'', CreatedAt = 0, UpdatedAt = 0\<rparr>,
    \<lparr>ID = ''A010'', Tag = ''IT-LAP-005'', Name = ''HP EliteBook 840'', Category = ''Laptops'', Status = ''active'', Location = ''HQ Floor 1'', Department = ''HR'', AssignedTo = ''Alice Brown'', PurchaseDate = ''2024-05-01'', PurchaseCost = Num 1499, CurrentValue = Num 1400, Vendor = ''HP'', SerialNumber = ''5CG456DEF'', Model = ''EliteBook 840 G9'', Warranty = ''2027-05-01'', Notes = '''', CreatedAt = 0, UpdatedAt = 0\<rparr>]"

definition sample_maintenance_A001 :: "MaintenanceRecord list" where
  "sample_maintenance_A001 = [
    \<lparr>mID = ''M001'', mAssetID = ''A001'', mDate = ''2025-01-02'', mType = ''Scheduled'', mDescription = ''Annual checkup and cleaning'', mCost = Num 75, mTechnician = '''', mStatus = ''completed'', mCreatedAt = 0\<rparr>,
    \<lparr>mID = ''M002'', mAssetID = ''A001'', mDate = ''2024-09-15'', mType = ''Repair'', mDescription = ''Battery replacement'', mCost = Num 199, mTechnician = '''', mStatus = ''completed'', mCreatedAt = 0\<rparr>,
    \<lparr>mID = ''M003'', mAssetID = ''A001'', mDate = ''2024-06-20'', mType = ''Upgrade'', mDescription = ''RAM upgrade to 32GB'', mCost = Num 350, mTechnician = '''', mStatus = ''completed'', mCreatedAt = 0\<rparr>]"

definition sample_maintenance_A005 :: "MaintenanceRecord list" where
  "sample_maintenance_A005 = [
    \<lparr>mID = ''M004'', mAssetID = ''A005'', mDate = ''2025-01-03'', mType = ''Repair'', mDescription = ''Battery replacement'', mCost = Num 189, mTechnician = '''', mStatus = ''pending'', mCreatedAt = 0\<rparr>,
    \<lparr>mID = ''M005'', mAssetID = ''A005'', mDate = ''2024-08-10'', mType = ''Scheduled'', mDescription = ''Annual checkup'', mCost = Num 50, mTechnician = '''', mStatus = ''completed'', mCreatedAt = 0\<rparr>]"

text \<open>
  The loop of \<open>loadSampleData\<close> over the sample assets. \<open>time.Now()\<close> is read twice for
  each asset; \<open>clock\<close> is the sequence of readings, \<open>n\<close> the number of readings taken.
\<close>

fun load_assets :: "(nat \<Rightarrow> time) \<Rightarrow> nat \<Rightarrow> Asset list \<Rightarrow> (string \<rightharpoonup> Asset) \<Rightarrow> (string \<rightharpoonup> Asset)" where
  "load_assets clock n [] m = m"
| "load_assets clock n (a # as) m =
     load_assets clock (n + 2) as
       (m(ID a \<mapsto> a\<lparr>CreatedAt := clock n, UpdatedAt := clock (n + 1)\<rparr>))"

definition loadSampleData :: "(nat \<Rightarrow> time) \<Rightarrow> MemoryStore \<Rightarrow> MemoryStore" where
  "loadSampleData clock s =
     s\<lparr>assets := load_assets clock 0 sample_assets (assets s),
       maintenance := (maintenance s)(''A001'' \<mapsto> sample_maintenance_A001,
                                      ''A005'' \<mapsto> sample_maintenance_A005)\<rparr>"

definition NewMemoryStore :: "(nat \<Rightarrow> time) \<Rightarrow> MemoryStore" where
  "NewMemoryStore clock =
     loadSampleData clock
       \<lparr>assets = Map.empty, maintenance = Map.empty, audit = Map.empty, nextID = 100\<rparr>"

subsection \<open>Assets\<close>

text \<open>
  \<open>ListAssets\<close> ranges over the map \<open>s.assets\<close>. Go visits every key once, in an order
  it does not fix; \<open>ks\<close> is the order of one run, and \<open>range_order\<close> says that it is one
  Go may take. The loop appends to \<open>result\<close>, which starts as the nil slice. A key
  that the map does not hold, which the range never yields, is passed over.
\<close>

definition range_order :: "('k \<rightharpoonup> 'v) \<Rightarrow> 'k list \<Rightarrow> bool" where
  "range_order m ks = (distinct ks \<and> set ks = dom m)"

fun ListAssets_loop :: "(string \<Rightarrow> string) \<Rightarrow> (string \<rightharpoonup> Asset) \<Rightarrow> AssetFilter \<Rightarrow> string list \<Rightarrow> Asset list \<Rightarrow> Asset list" where
  "ListAssets_loop ToLower m filt [] result = result"
| "ListAssets_loop ToLower m filt (k # ks) result =
     (case m k of
        None \<Rightarrow> ListAssets_loop ToLower m filt ks result
      | Some a \<Rightarrow>
          if fStatus filt \<noteq> [] \<and> Status a \<noteq> fStatus filt
            then ListAssets_loop ToLower m filt ks result
          else if fCategory filt \<noteq> [] \<and> Category a \<noteq> fCategory filt
            then ListAssets_loop ToLower m filt ks result
          else if fDepartment filt \<noteq> [] \<and> Department a \<noteq> fDepartment filt
            then ListAssets_loop ToLower m filt ks result
          else if fSearch filt \<noteq> [] \<and> \<not> Contains (ToLower (Name a)) (ToLower (fSearch filt))
            then ListAssets_loop ToLower m filt ks result
          else ListAssets_loop ToLower m filt ks (result @ [a]))"

definition ListAssets :: "(string \<Rightarrow> string) \<Rightarrow> MemoryStore \<Rightarrow> AssetFilter \<Rightarrow> string list \<Rightarrow> Asset list \<times> error option" where
  "ListAssets ToLower s filt ks = (ListAssets_loop ToLower (assets s) filt ks [], None)"


text \<open>
  The mutating operations return the store after the call, the struct behind the
  pointer argument after the call, and the error (\<open>None\<close> for nil). The readings of
  \<open>time.Now()\<close> are arguments, one for each call in the source.
\<close>

definition CreateAsset :: "MemoryStore \<Rightarrow> Asset \<Rightarrow> time \<Rightarrow> time \<Rightarrow> MemoryStore \<times> Asset \<times> error option" where
  "CreateAsset s asset now1 now2 =
     (let s1 = (if ID asset = [] then s\<lparr>nextID := incr (nextID s)\<rparr> else s);
          asset1 = (if ID asset = [] then asset\<lparr>ID := ''A'' @ Sprintf_03d (nextID s1)\<rparr> else asset);
          asset2 = asset1\<lparr>CreatedAt := now1, UpdatedAt := now2\<rparr>
      in (s1\<lparr>assets := (assets s1)(ID asset2 \<mapsto> asset2)\<rparr>, asset2, None))"

definition UpdateAsset :: "MemoryStore \<Rightarrow> Asset \<Rightarrow> time \<Rightarrow> MemoryStore \<times> Asset \<times> error option" where
  "UpdateAsset s asset now =
     (case assets s (ID asset) of
        None \<Rightarrow> (s, asset, Some (''asset not found: '' @ ID asset))
      | Some _ \<Rightarrow>
          (let asset1 = asset\<lparr>UpdatedAt := now\<rparr>
           in (s\<lparr>assets := (assets s)(ID asset1 \<mapsto> asset1)\<rparr>, asset1, None)))"

definition DeleteAsset :: "MemoryStore \<Rightarrow> string \<Rightarrow> MemoryStore \<times> error option" where
  "DeleteAsset s id' =
     (case assets s id' of
        None \<Rightarrow> (s, Some (''asset not found: '' @ id'))
      | Some _ \<Rightarrow> (s\<lparr>assets := (assets s)(id' := None)\<rparr>, None))"

subsection \<open>Maintenance and audit\<close>

definition ListMaintenance :: "MemoryStore \<Rightarrow> string \<Rightarrow> MaintenanceRecord list \<times> error option" where
  "ListMaintenance s assetID = (index_slices (maintenance s) assetID, None)"

definition CreateMaintenance :: "MemoryStore \<Rightarrow> MaintenanceRecord \<Rightarrow> time \<Rightarrow> MemoryStore \<times> MaintenanceRecord \<times> error option" where
  "CreateMaintenance s rec now =
     (let s1 = s\<lparr>nextID := incr (nextID s)\<rparr>;
          record1 = rec\<lparr>mID := ''M'' @ Sprintf_03d (nextID s1), mCreatedAt := now\<rparr>
      in (s1\<lparr>maintenance := (maintenance s1)(mAssetID record1 \<mapsto>
                 index_slices (maintenance s1) (mAssetID record1) @ [record1])\<rparr>,
          record1, None))"

definition ListAuditEntries :: "MemoryStore \<Rightarrow> string \<Rightarrow> AuditEntry list \<times> error option" where
  "ListAuditEntries s assetID = (index_slices (audit s) assetID, None)"

definition CreateAuditEntry :: "MemoryStore \<Rightarrow> AuditEntry \<Rightarrow> time \<Rightarrow> MemoryStore \<times> AuditEntry \<times> error option" where
  "CreateAuditEntry s entry now =
     (let s1 = s\<lparr>nextID := incr (nextID s)\<rparr>;
          entry1 = entry\<lparr>eID := ''AU'' @ Sprintf_03d (nextID s1), Timestamp := now\<rparr>
      in (s1\<lparr>audit := (audit s1)(eAssetID entry1 \<mapsto>
                 index_slices (audit s1) (eAssetID entry1) @ [entry1])\<rparr>,
          entry1, None))"

section \<open>The REST handlers (package api)\<close>


text \<open>
  The values the two handlers below put behind \<open>Data interface{}\<close>: the pointer that
  \<open>GetAsset\<close> returns, and the slice that \<open>ListAssets\<close> returns.
\<close>

datatype payload = AssetPtr Asset | AssetSlice "Asset list"

record meta =
  Total :: int

record apiResponse =
  Data :: "payload option"
  Error :: string
  Meta :: "meta option"


















section \<open>Runs of the store\<close>

text \<open>
  A client's calls of the mutating operations, one after the other, from a store
  state. \<open>step\<close> gives the store after a call and the ID the call generated, if it
  generated one; \<open>run\<close> collects the generated IDs in the order of the calls.
\<close>

datatype op =
    OpCreateAsset Asset time time
  | OpUpdateAsset Asset time
  | OpDeleteAsset string
  | OpCreateMaintenance MaintenanceRecord time
  | OpCreateAuditEntry AuditEntry time

fun step :: "MemoryStore \<Rightarrow> op \<Rightarrow> MemoryStore \<times> string option" where
  "step s (OpCreateAsset asset now1 now2) =
     (case CreateAsset s asset now1 now2 of
        (s', asset', err) \<Rightarrow> (s', if ID asset = [] then Some (ID asset') else None))"
| "step s (OpUpdateAsset asset now) = (fst (UpdateAsset s asset now), None)"
| "step s (OpDeleteAsset id') = (fst (DeleteAsset s id'), None)"
| "step s (OpCreateMaintenance rec now) =
     (case CreateMaintenance s rec now of (s', rec', err) \<Rightarrow> (s', Some (mID rec')))"
| "step s (OpCreateAuditEntry entry now) =
     (case CreateAuditEntry s entry now of (s', entry', err) \<Rightarrow> (s', Some (eID entry')))"

fun run :: "MemoryStore \<Rightarrow> op list \<Rightarrow> MemoryStore \<times> string list" where
  "run s [] = (s, [])"
| "run s (x # xs) =
     (case step s x of
        (s', g) \<Rightarrow>
          (case run s' xs of
             (s'', gs) \<Rightarrow> (s'', (case g of None \<Rightarrow> gs | Some i \<Rightarrow> i # gs))))"

text \<open>The letters that a creating call puts before the number of a generated ID.\<close>

fun id_prefix :: "op \<Rightarrow> string" where
  "id_prefix (OpCreateAsset asset now1 now2) = ''A''"
| "id_prefix (OpCreateMaintenance rec now) = ''M''"
| "id_prefix (OpCreateAuditEntry entry now) = ''AU''"
| "id_prefix (OpUpdateAsset asset now) = []"
| "id_prefix (OpDeleteAsset id') = []"

section \<open>Notions of the specification\<close>

text \<open>
  A case-insensitive substring match: once both are lowered, \<open>sub\<close> is a stretch of
  \<open>s\<close>.
\<close>

definition ci_substring :: "(string \<Rightarrow> string) \<Rightarrow> string \<Rightarrow> string \<Rightarrow> bool" where
  "ci_substring ToLower sub s = (\<exists>u w. ToLower s = u @ ToLower sub @ w)"

text \<open>
  An asset satisfies a filter when it satisfies every non-empty field of it: equality on
  status, category and department, the match above of the search text against the name.
\<close>

definition satisfies :: "(string \<Rightarrow> string) \<Rightarrow> AssetFilter \<Rightarrow> Asset \<Rightarrow> bool" where
  "satisfies ToLower filt a =
     ((fStatus filt = [] \<or> Status a = fStatus filt) \<and>
      (fCategory filt = [] \<or> Category a = fCategory filt) \<and>
      (fDepartment filt = [] \<or> Department a = fDepartment filt) \<and>
      (fSearch filt = [] \<or> ci_substring ToLower (fSearch filt) (Name a)))"

text \<open>The keys of a map whose asset satisfies the filter.\<close>

definition keep :: "(string \<Rightarrow> string) \<Rightarrow> (string \<rightharpoonup> Asset) \<Rightarrow> AssetFilter \<Rightarrow> string \<Rightarrow> bool" where
  "keep ToLower m filt k = (case m k of None \<Rightarrow> False | Some a \<Rightarrow> satisfies ToLower filt a)"


text \<open>The number that the decimal digits of an ID spell, read from left to right.\<close>

definition is_digit :: "char \<Rightarrow> bool" where
  "is_digit c = ((48::nat) \<le> of_char c \<and> of_char c \<le> (57::nat))"

definition dec_val :: "string \<Rightarrow> nat" where
  "dec_val ds = foldl (\<lambda>acc c. 10 * acc + (of_char c - 48)) 0 ds"

definition id_counter :: "string \<Rightarrow> int" where
  "id_counter i = int (dec_val (filter is_digit i))"

section \<open>Example inputs\<close>

text \<open>
  The strings of the examples are ASCII. On a string of bytes below \<open>0x80\<close>
  \<open>strings.ToLower\<close> maps \<open>A\<close>..\<open>Z\<close> to \<open>a\<close>..\<open>z\<close> byte by byte and leaves the
  other bytes, as \<open>ascii_ToLower\<close> does.
\<close>

definition lower_byte :: "char \<Rightarrow> char" where
  "lower_byte c =
     (if (65::nat) \<le> of_char c \<and> of_char c \<le> (90::nat)
      then char_of (of_char c + (32::nat)) else c)"

definition ascii_ToLower :: "string \<Rightarrow> string" where
  "ascii_ToLower s = map lower_byte s"

definition tick :: "nat \<Rightarrow> time" where
  "tick n = 1000 + int n"

definition ex_filter :: AssetFilter where
  "ex_filter = \<lparr>fStatus = ''active'', fCategory = ''Laptops'', fDepartment = [],
                 fSearch = ''MAC'', Limit = 0, Offset = 0\<rparr>"

definition ex_order :: "string list" where
  "ex_order = [''A007'', ''A002'', ''A010'', ''A001'', ''A005'', ''A003'', ''A009'', ''A004'',
               ''A008'', ''A006'']"

definition ex_laptops :: AssetFilter where
  "ex_laptops = \<lparr>fStatus = [], fCategory = ''Laptops'', fDepartment = [], fSearch = [],
                  Limit = 0, Offset = 0\<rparr>"

definition ex_all :: AssetFilter where
  "ex_all = \<lparr>fStatus = [], fCategory = [], fDepartment = [], fSearch = [],
              Limit = 0, Offset = 0\<rparr>"

definition ex_ghost :: Asset where
  "ex_ghost = (sample_assets ! 2)\<lparr>ID := ''A404''\<rparr>"

definition ex_renamed :: Asset where
  "ex_renamed = (sample_assets ! 2)\<lparr>Name := ''Dell U2724D''\<rparr>"

definition ex_new :: Asset where
  "ex_new = (sample_assets ! 2)\<lparr>ID := []\<rparr>"




definition ex_A101 :: Asset where
  "ex_A101 = (sample_assets ! 2)\<lparr>ID := ''A101''\<rparr>"

definition ex_entry :: AuditEntry where
  "ex_entry = \<lparr>eID = [], eAssetID = ''A002'', Timestamp = 0, User = ''admin'',
                Action = ''update'', Details = []\<rparr>"

definition ex_ops :: "op list" where
  "ex_ops = [OpCreateAsset ex_new 2000 2001,
             OpCreateMaintenance (sample_maintenance_A005 ! 0) 2002,
             OpDeleteAsset ''A001'',
             OpCreateAuditEntry ex_entry 2003,
             OpCreateAsset ex_renamed 2004 2005,
             OpCreateAsset ex_new 2006 2007]"

definition ex_pre :: "op list" where
  "ex_pre = [OpCreateAsset ex_new 2000 2001]"

definition ex_post :: "op list" where
  "ex_post = [OpDeleteAsset ''A001'', OpCreateAuditEntry ex_entry 2003,
              OpCreateAsset ex_renamed 2004 2005, OpCreateAsset ex_new 2006 2007]"


section \<open>Substrings and the loop of \<open>ListAssets\<close>\<close>

lemma HasPrefix_iff: "HasPrefix s p \<longleftrightarrow> (\<exists>w. s = p @ w)"
  by (induction s p rule: HasPrefix.induct) auto

lemma Contains_iff: "Contains s sub \<longleftrightarrow> (\<exists>u w. s = u @ sub @ w)"
proof (induction s)
  case Nil
  then show ?case by auto
next
  case (Cons c cs)
  show ?case
  proof
    assume "Contains (c # cs) sub"
    then consider "HasPrefix (c # cs) sub" | "Contains cs sub" by auto
    then show "\<exists>u w. c # cs = u @ sub @ w"
    proof cases
      case 1
      then obtain w where "c # cs = sub @ w" by (auto simp: HasPrefix_iff)
      then have "c # cs = [] @ sub @ w" by simp
      then show ?thesis by blast
    next
      case 2
      then obtain u w where "cs = u @ sub @ w" using Cons.IH by auto
      then have "c # cs = (c # u) @ sub @ w" by simp
      then show ?thesis by blast
    qed
  next
    assume "\<exists>u w. c # cs = u @ sub @ w"
    then obtain u w where e: "c # cs = u @ sub @ w" by auto
    show "Contains (c # cs) sub"
    proof (cases u)
      case Nil
      with e have "HasPrefix (c # cs) sub" by (auto simp: HasPrefix_iff)
      then show ?thesis by simp
    next
      case (Cons d u')
      with e have "cs = u' @ sub @ w" by simp
      then have "Contains cs sub" using Cons.IH by blast
      then show ?thesis by simp
    qed
  qed
qed

lemma Contains_ci: "Contains (ToLower s) (ToLower sub) \<longleftrightarrow> ci_substring ToLower sub s"
  by (simp add: Contains_iff ci_substring_def)

lemma ListAssets_loop_eq:
  "ListAssets_loop ToLower m filt ks result =
     result @ map (\<lambda>k. the (m k)) (filter (keep ToLower m filt) ks)"
proof (induction ks arbitrary: result)
  case Nil
  then show ?case by simp
next
  case (Cons k ks)
  show ?case
  proof (cases "m k")
    case None
    then show ?thesis by (simp add: Cons.IH keep_def)
  next
    case (Some a)
    then show ?thesis
      by (auto simp: Cons.IH keep_def satisfies_def Contains_ci)
  qed
qed

lemma ListAssets_set:
  assumes "range_order m ks"
  shows "set (ListAssets_loop ToLower m filt ks []) = {a. \<exists>k. m k = Some a \<and> satisfies ToLower filt a}"
proof -
  have "set ks = dom m" using assms by (simp add: range_order_def)
  then show ?thesis
    unfolding ListAssets_loop_eq
    by (force simp: keep_def split: option.splits)
qed

lemma ListAssets_length:
  assumes "range_order m ks"
  shows "length (ListAssets_loop ToLower m filt ks []) = card {k. \<exists>a. m k = Some a \<and> satisfies ToLower filt a}"
proof -
  have d: "distinct ks" and s: "set ks = dom m" using assms by (simp_all add: range_order_def)
  have "set (filter (keep ToLower m filt) ks) = {k. \<exists>a. m k = Some a \<and> satisfies ToLower filt a}"
    using s by (auto simp: keep_def split: option.splits)
  moreover have "length (filter (keep ToLower m filt) ks) = card (set (filter (keep ToLower m filt) ks))"
    using d distinct_card [of "filter (keep ToLower m filt) ks"] by simp
  ultimately show ?thesis
    unfolding ListAssets_loop_eq by simp
qed

section \<open>The sample store\<close>

lemma assets_NewMemoryStore:
  "assets (NewMemoryStore clock) = load_assets clock 0 sample_assets Map.empty"
  by (simp add: NewMemoryStore_def loadSampleData_def)

lemma dom_sample: "dom (assets (NewMemoryStore clock)) =
   {''A001'', ''A002'', ''A003'', ''A004'', ''A005'', ''A006'', ''A007'', ''A008'', ''A009'', ''A010''}"
  by (auto simp: assets_NewMemoryStore sample_assets_def)

lemma sample_missing: "assets (NewMemoryStore clock) ''A404'' = None"
  by (simp add: assets_NewMemoryStore sample_assets_def)

lemma sample_A003: "assets (NewMemoryStore clock) ''A003'' =
  Some ((sample_assets ! 2)\<lparr>CreatedAt := clock 4, UpdatedAt := clock 5\<rparr>)"
  by (simp add: assets_NewMemoryStore sample_assets_def eval_nat_numeral)

lemma range_order_sample: "range_order (assets (NewMemoryStore clock)) ex_order"
  by (auto simp: range_order_def dom_sample ex_order_def)

lemma nextID_sample: "nextID (NewMemoryStore clock) = 100"
  by (simp add: NewMemoryStore_def loadSampleData_def)

lemma ID_ex [simp]: "ID ex_ghost = ''A404''" "ID ex_renamed = ''A003''" "ID ex_new = []"
  by (simp_all add: ex_ghost_def ex_renamed_def ex_new_def sample_assets_def)

section \<open>Listing assets\<close>

text \<open>
  Claim C1. For every store state, every filter and every order in which the loop may
  visit the map, \<open>ListAssets\<close> returns no error, and its result holds exactly the
  stored assets that satisfy every non-empty field of the filter: equality on status,
  category and department, and the search text, lowered, a stretch of the lowered
  name. The result holds the same assets as a set, and as many entries as there are
  keys with a satisfying asset, so each stored asset comes once. With all four fields
  empty the result holds all stored assets. This holds whatever function lowers the
  strings, so for \<open>strings.ToLower\<close> on all of Unicode.
\<close>

theorem ListAssets_filters:
  assumes "range_order (assets s) ks"
  shows "snd (ListAssets ToLower s filt ks) = None \<and>
         set (fst (ListAssets ToLower s filt ks)) = {a. \<exists>k. assets s k = Some a \<and> satisfies ToLower filt a} \<and>
         length (fst (ListAssets ToLower s filt ks)) = card {k. \<exists>a. assets s k = Some a \<and> satisfies ToLower filt a} \<and>
         (fStatus filt = [] \<and> fCategory filt = [] \<and> fDepartment filt = [] \<and> fSearch filt = [] \<longrightarrow>
            set (fst (ListAssets ToLower s filt ks)) = ran (assets s) \<and>
            length (fst (ListAssets ToLower s filt ks)) = card (dom (assets s)))"
proof -
  have 1: "snd (ListAssets ToLower s filt ks) = None" by (simp add: ListAssets_def)
  have 2: "set (fst (ListAssets ToLower s filt ks)) = {a. \<exists>k. assets s k = Some a \<and> satisfies ToLower filt a}"
    using ListAssets_set [OF assms] by (simp add: ListAssets_def)
  have 3: "length (fst (ListAssets ToLower s filt ks)) = card {k. \<exists>a. assets s k = Some a \<and> satisfies ToLower filt a}"
    using ListAssets_length [OF assms] by (simp add: ListAssets_def)
  have 4: "set (fst (ListAssets ToLower s filt ks)) = ran (assets s) \<and>
           length (fst (ListAssets ToLower s filt ks)) = card (dom (assets s))"
    if "fStatus filt = [] \<and> fCategory filt = [] \<and> fDepartment filt = [] \<and> fSearch filt = []"
  proof -
    have "satisfies ToLower filt a" for a using that by (simp add: satisfies_def)
    then show ?thesis unfolding 2 3 by (simp add: ran_def dom_def)
  qed
  from 1 2 3 4 show ?thesis by blast
qed

text \<open>
  The theorem at the sample store: the active laptops whose name contains \<open>MAC\<close> in
  any case, and the empty filter, which gives all ten assets.
\<close>

theorem ListAssets_filters_witness:
  "range_order (assets (NewMemoryStore tick)) ex_order \<and>
   snd (ListAssets ascii_ToLower (NewMemoryStore tick) ex_filter ex_order) = None \<and>
   set (fst (ListAssets ascii_ToLower (NewMemoryStore tick) ex_filter ex_order)) =
     {a. \<exists>k. assets (NewMemoryStore tick) k = Some a \<and> satisfies ascii_ToLower ex_filter a} \<and>
   map ID (fst (ListAssets ascii_ToLower (NewMemoryStore tick) ex_filter ex_order)) = [''A001''] \<and>
   fStatus ex_all = [] \<and> fCategory ex_all = [] \<and> fDepartment ex_all = [] \<and> fSearch ex_all = [] \<and>
   set (fst (ListAssets ascii_ToLower (NewMemoryStore tick) ex_all ex_order)) = ran (assets (NewMemoryStore tick)) \<and>
   length (fst (ListAssets ascii_ToLower (NewMemoryStore tick) ex_all ex_order)) = 10"
proof -
  have h: "range_order (assets (NewMemoryStore tick)) ex_order"
    by (rule range_order_sample)
  have e: "fStatus ex_all = [] \<and> fCategory ex_all = [] \<and> fDepartment ex_all = [] \<and> fSearch ex_all = []"
    by (simp add: ex_all_def)
  have v: "map ID (fst (ListAssets ascii_ToLower (NewMemoryStore tick) ex_filter ex_order)) = [''A001'']"
    by code_simp
  have c: "card (dom (assets (NewMemoryStore tick))) = 10"
    unfolding dom_sample by simp
  from ListAssets_filters [OF h, where ToLower = ascii_ToLower and filt = ex_filter]
  have c1: "snd (ListAssets ascii_ToLower (NewMemoryStore tick) ex_filter ex_order) = None \<and>
     set (fst (ListAssets ascii_ToLower (NewMemoryStore tick) ex_filter ex_order)) =
       {a. \<exists>k. assets (NewMemoryStore tick) k = Some a \<and> satisfies ascii_ToLower ex_filter a}"
    by blast
  from ListAssets_filters [OF h, where ToLower = ascii_ToLower and filt = ex_all] e
  have c2: "set (fst (ListAssets ascii_ToLower (NewMemoryStore tick) ex_all ex_order)) = ran (assets (NewMemoryStore tick)) \<and>
     length (fst (ListAssets ascii_ToLower (NewMemoryStore tick) ex_all ex_order)) = card (dom (assets (NewMemoryStore tick)))"
    by blast
  from h e v c1 c2 show ?thesis unfolding c by blast
qed

section \<open>Looking up, updating and deleting an asset\<close>




text \<open>
  Claim C3. \<open>UpdateAsset\<close> returns an error exactly when no asset is stored under
  \<open>asset.ID\<close>, and then the whole store is as before. On success the asset stored
  under \<open>asset.ID\<close> is the argument with \<open>UpdatedAt\<close> set to the time of the call,
  and every other asset, the maintenance records, the audit entries and the counter
  are as before.
\<close>

theorem UpdateAsset_spec:
  "((snd (snd (UpdateAsset s asset now)) \<noteq> None) \<longleftrightarrow> assets s (ID asset) = None) \<and>
   (assets s (ID asset) = None \<longrightarrow>
      fst (UpdateAsset s asset now) = s \<and> fst (snd (UpdateAsset s asset now)) = asset) \<and>
   (assets s (ID asset) \<noteq> None \<longrightarrow>
      assets (fst (UpdateAsset s asset now)) (ID asset) = Some (asset\<lparr>UpdatedAt := now\<rparr>) \<and>
      fst (snd (UpdateAsset s asset now)) = asset\<lparr>UpdatedAt := now\<rparr> \<and>
      (\<forall>k. k \<noteq> ID asset \<longrightarrow> assets (fst (UpdateAsset s asset now)) k = assets s k) \<and>
      maintenance (fst (UpdateAsset s asset now)) = maintenance s \<and>
      audit (fst (UpdateAsset s asset now)) = audit s \<and>
      nextID (fst (UpdateAsset s asset now)) = nextID s)"
  by (auto simp: UpdateAsset_def Let_def split: option.splits)

theorem UpdateAsset_spec_witness:
  "assets (NewMemoryStore tick) (ID ex_ghost) = None \<and>
   snd (snd (UpdateAsset (NewMemoryStore tick) ex_ghost 2000)) \<noteq> None \<and>
   fst (UpdateAsset (NewMemoryStore tick) ex_ghost 2000) = NewMemoryStore tick \<and>
   assets (NewMemoryStore tick) (ID ex_renamed) \<noteq> None \<and>
   snd (snd (UpdateAsset (NewMemoryStore tick) ex_renamed 2000)) = None \<and>
   assets (fst (UpdateAsset (NewMemoryStore tick) ex_renamed 2000)) ''A003'' =
     Some (ex_renamed\<lparr>UpdatedAt := 2000\<rparr>) \<and>
   assets (fst (UpdateAsset (NewMemoryStore tick) ex_renamed 2000)) ''A004'' =
     assets (NewMemoryStore tick) ''A004''"
proof -
  have h1: "assets (NewMemoryStore tick) (ID ex_ghost) = None"
    by (simp add: sample_missing)
  have h2: "assets (NewMemoryStore tick) (ID ex_renamed) \<noteq> None"
    by (simp add: sample_A003)
  have k: "''A004'' \<noteq> ID ex_renamed" by simp
  from UpdateAsset_spec [of "NewMemoryStore tick" ex_ghost 2000] h1
  have c1: "snd (snd (UpdateAsset (NewMemoryStore tick) ex_ghost 2000)) \<noteq> None \<and>
            fst (UpdateAsset (NewMemoryStore tick) ex_ghost 2000) = NewMemoryStore tick"
    by blast
  from UpdateAsset_spec [of "NewMemoryStore tick" ex_renamed 2000] h2 k
  have c2: "snd (snd (UpdateAsset (NewMemoryStore tick) ex_renamed 2000)) = None \<and>
            assets (fst (UpdateAsset (NewMemoryStore tick) ex_renamed 2000)) (ID ex_renamed) =
              Some (ex_renamed\<lparr>UpdatedAt := 2000\<rparr>) \<and>
            assets (fst (UpdateAsset (NewMemoryStore tick) ex_renamed 2000)) ''A004'' =
              assets (NewMemoryStore tick) ''A004''"
    by blast
  from h1 h2 c1 c2 show ?thesis by simp
qed

text \<open>
  Claim C4. \<open>DeleteAsset\<close> returns an error exactly when no asset is stored under the
  id, and then the store is as before. On success it removes the asset under that id
  and nothing else: every other asset, all maintenance records and all audit entries,
  those under the deleted id among them, are as before.
\<close>

theorem DeleteAsset_spec:
  "((snd (DeleteAsset s i) \<noteq> None) \<longleftrightarrow> assets s i = None) \<and>
   (assets s i = None \<longrightarrow> fst (DeleteAsset s i) = s) \<and>
   (assets s i \<noteq> None \<longrightarrow>
      assets (fst (DeleteAsset s i)) = (assets s)(i := None) \<and>
      dom (assets (fst (DeleteAsset s i))) = dom (assets s) - {i} \<and>
      (\<forall>k. k \<noteq> i \<longrightarrow> assets (fst (DeleteAsset s i)) k = assets s k) \<and>
      maintenance (fst (DeleteAsset s i)) = maintenance s \<and>
      audit (fst (DeleteAsset s i)) = audit s \<and>
      nextID (fst (DeleteAsset s i)) = nextID s)"
  by (auto simp: DeleteAsset_def split: option.splits)

theorem DeleteAsset_spec_witness:
  "assets (NewMemoryStore tick) ''A404'' = None \<and>
   snd (DeleteAsset (NewMemoryStore tick) ''A404'') \<noteq> None \<and>
   fst (DeleteAsset (NewMemoryStore tick) ''A404'') = NewMemoryStore tick \<and>
   assets (NewMemoryStore tick) ''A003'' \<noteq> None \<and>
   snd (DeleteAsset (NewMemoryStore tick) ''A003'') = None \<and>
   dom (assets (fst (DeleteAsset (NewMemoryStore tick) ''A003''))) =
     {''A001'', ''A002'', ''A004'', ''A005'', ''A006'', ''A007'', ''A008'', ''A009'', ''A010''} \<and>
   maintenance (fst (DeleteAsset (NewMemoryStore tick) ''A003'')) = maintenance (NewMemoryStore tick)"
proof -
  have h1: "assets (NewMemoryStore tick) ''A404'' = None"
    by (simp add: sample_missing)
  have h2: "assets (NewMemoryStore tick) ''A003'' \<noteq> None"
    by (simp add: sample_A003)
  have d: "dom (assets (NewMemoryStore tick)) - {''A003''} =
     {''A001'', ''A002'', ''A004'', ''A005'', ''A006'', ''A007'', ''A008'', ''A009'', ''A010''}"
    unfolding dom_sample by auto
  from DeleteAsset_spec [of "NewMemoryStore tick" "''A404''"] h1
  have c1: "snd (DeleteAsset (NewMemoryStore tick) ''A404'') \<noteq> None \<and>
            fst (DeleteAsset (NewMemoryStore tick) ''A404'') = NewMemoryStore tick"
    by blast
  from DeleteAsset_spec [of "NewMemoryStore tick" "''A003''"] h2
  have c2: "snd (DeleteAsset (NewMemoryStore tick) ''A003'') = None \<and>
            dom (assets (fst (DeleteAsset (NewMemoryStore tick) ''A003''))) =
              dom (assets (NewMemoryStore tick)) - {''A003''} \<and>
            maintenance (fst (DeleteAsset (NewMemoryStore tick) ''A003'')) =
              maintenance (NewMemoryStore tick)"
    by blast
  from h1 h2 c1 c2 show ?thesis unfolding d by blast
qed

section \<open>The new store\<close>

text \<open>
  Claim C5. The store that \<open>NewMemoryStore\<close> returns holds the ten sample assets
  under the IDs A001 to A010 and no other asset, three maintenance records for A001,
  two for A005 and none under any other key, no audit entry, and the counter 100.
\<close>

theorem NewMemoryStore_contents:
  "dom (assets (NewMemoryStore clock)) =
     {''A001'', ''A002'', ''A003'', ''A004'', ''A005'', ''A006'', ''A007'', ''A008'', ''A009'', ''A010''} \<and>
   card (dom (assets (NewMemoryStore clock))) = 10 \<and>
   map (\<lambda>k. map_option (\<lambda>a. a\<lparr>CreatedAt := 0, UpdatedAt := 0\<rparr>) (assets (NewMemoryStore clock) k))
     [''A001'', ''A002'', ''A003'', ''A004'', ''A005'', ''A006'', ''A007'', ''A008'', ''A009'', ''A010'']
     = map Some sample_assets \<and>
   dom (maintenance (NewMemoryStore clock)) = {''A001'', ''A005''} \<and>
   map mID (fst (ListMaintenance (NewMemoryStore clock) ''A001'')) = [''M001'', ''M002'', ''M003''] \<and>
   map mID (fst (ListMaintenance (NewMemoryStore clock) ''A005'')) = [''M004'', ''M005''] \<and>
   audit (NewMemoryStore clock) = Map.empty \<and>
   nextID (NewMemoryStore clock) = 100"
proof -
  have 1: "dom (assets (NewMemoryStore clock)) =
     {''A001'', ''A002'', ''A003'', ''A004'', ''A005'', ''A006'', ''A007'', ''A008'', ''A009'', ''A010''}"
    by (rule dom_sample)
  have 2: "card (dom (assets (NewMemoryStore clock))) = 10"
    unfolding 1 by simp
  have 3: "map (\<lambda>k. map_option (\<lambda>a. a\<lparr>CreatedAt := 0, UpdatedAt := 0\<rparr>) (assets (NewMemoryStore clock) k))
     [''A001'', ''A002'', ''A003'', ''A004'', ''A005'', ''A006'', ''A007'', ''A008'', ''A009'', ''A010'']
     = map Some sample_assets"
    by (simp add: assets_NewMemoryStore sample_assets_def)
  have 4: "dom (maintenance (NewMemoryStore clock)) = {''A001'', ''A005''}"
    by (auto simp: NewMemoryStore_def loadSampleData_def)
  have 5: "map mID (fst (ListMaintenance (NewMemoryStore clock) ''A001'')) = [''M001'', ''M002'', ''M003'']"
    by (simp add: ListMaintenance_def index_slices_def NewMemoryStore_def loadSampleData_def
          sample_maintenance_A001_def)
  have 6: "map mID (fst (ListMaintenance (NewMemoryStore clock) ''A005'')) = [''M004'', ''M005'']"
    by (simp add: ListMaintenance_def index_slices_def NewMemoryStore_def loadSampleData_def
          sample_maintenance_A005_def)
  have 7: "audit (NewMemoryStore clock) = Map.empty"
    by (simp add: NewMemoryStore_def loadSampleData_def)
  have 8: "nextID (NewMemoryStore clock) = 100"
    by (simp add: NewMemoryStore_def loadSampleData_def)
  from 1 2 3 4 5 6 7 8 show ?thesis by blast
qed

section \<open>The handler of \<open>GET /api/assets\<close>\<close>





section \<open>Limit and offset\<close>

lemma satisfies_paging [simp]: "satisfies ToLower (filt\<lparr>Limit := l, Offset := off\<rparr>) a = satisfies ToLower filt a"
  by (simp add: satisfies_def)

lemma keep_paging [simp]: "keep ToLower m (filt\<lparr>Limit := l, Offset := off\<rparr>) = keep ToLower m filt"
  by (rule ext) (simp add: keep_def split: option.split)

text \<open>
  Claim C8. \<open>ListAssets\<close> does not read \<open>Limit\<close> and \<open>Offset\<close>: the result is the same
  for all their values, and it holds every matching asset whatever they are, for every
  function that lowers the strings.
\<close>

theorem ListAssets_ignores_paging:
  "ListAssets ToLower s (filt\<lparr>Limit := l, Offset := off\<rparr>) ks = ListAssets ToLower s filt ks \<and>
   (range_order (assets s) ks \<longrightarrow>
      set (fst (ListAssets ToLower s (filt\<lparr>Limit := l, Offset := off\<rparr>) ks)) =
        {a. \<exists>k. assets s k = Some a \<and> satisfies ToLower filt a} \<and>
      length (fst (ListAssets ToLower s (filt\<lparr>Limit := l, Offset := off\<rparr>) ks)) =
        card {k. \<exists>a. assets s k = Some a \<and> satisfies ToLower filt a})"
proof -
  have e: "ListAssets ToLower s (filt\<lparr>Limit := l, Offset := off\<rparr>) ks = ListAssets ToLower s filt ks"
    by (simp add: ListAssets_def ListAssets_loop_eq)
  show ?thesis
    unfolding e
    using ListAssets_set [where m = "assets s" and ks = ks and filt = filt and ToLower = ToLower]
      ListAssets_length [where m = "assets s" and ks = ks and filt = filt and ToLower = ToLower]
    by (simp add: ListAssets_def)
qed

theorem ListAssets_ignores_paging_witness:
  "range_order (assets (NewMemoryStore tick)) ex_order \<and>
   ListAssets ascii_ToLower (NewMemoryStore tick) (ex_laptops\<lparr>Limit := 2, Offset := 1\<rparr>) ex_order =
     ListAssets ascii_ToLower (NewMemoryStore tick) ex_laptops ex_order \<and>
   map ID (fst (ListAssets ascii_ToLower (NewMemoryStore tick) (ex_laptops\<lparr>Limit := 2, Offset := 1\<rparr>) ex_order)) =
     [''A002'', ''A010'', ''A001'', ''A005'', ''A008''] \<and>
   length (fst (ListAssets ascii_ToLower (NewMemoryStore tick) (ex_laptops\<lparr>Limit := 2, Offset := 1\<rparr>) ex_order)) =
     card {k. \<exists>a. assets (NewMemoryStore tick) k = Some a \<and> satisfies ascii_ToLower ex_laptops a}"
proof -
  have v: "map ID (fst (ListAssets ascii_ToLower (NewMemoryStore tick) (ex_laptops\<lparr>Limit := 2, Offset := 1\<rparr>) ex_order)) =
     [''A002'', ''A010'', ''A001'', ''A005'', ''A008'']"
    by code_simp
  from ListAssets_ignores_paging [where ToLower = ascii_ToLower and s = "NewMemoryStore tick" and filt = ex_laptops
        and l = 2 and off = 1 and ks = ex_order] range_order_sample [of tick] v
  show ?thesis by blast
qed

section \<open>Creating an asset\<close>

text \<open>
  Claim C9, as the specification states it, after an asset was created under the ID
  A101 that its request carried: the next asset created with no ID gets the ID A101,
  which is in use, and replaces that asset. The ID assigned is not fresh.
\<close>

theorem CreateAsset_fresh_counterexample:
  "assets (fst (CreateAsset (NewMemoryStore tick) ex_A101 2000 2001)) ''A101'' =
     Some (ex_A101\<lparr>CreatedAt := 2000, UpdatedAt := 2001\<rparr>) \<and>
   ID ex_new = [] \<and>
   ID (fst (snd (CreateAsset (fst (CreateAsset (NewMemoryStore tick) ex_A101 2000 2001))
                   ex_new 2002 2003))) = ''A101'' \<and>
   ID (fst (snd (CreateAsset (fst (CreateAsset (NewMemoryStore tick) ex_A101 2000 2001))
                   ex_new 2002 2003)))
     \<in> dom (assets (fst (CreateAsset (NewMemoryStore tick) ex_A101 2000 2001))) \<and>
   assets (fst (CreateAsset (fst (CreateAsset (NewMemoryStore tick) ex_A101 2000 2001))
                  ex_new 2002 2003)) ''A101'' =
     Some (ex_new\<lparr>ID := ''A101'', CreatedAt := 2002, UpdatedAt := 2003\<rparr>)"
proof -
  have c: "incr 100 = 101"
    by (simp add: incr_def wrap64_def)
  have i: "Sprintf_03d 101 = ''101''"
    by code_simp
  have d: "ID ex_A101 = ''A101''"
    by (simp add: ex_A101_def)
  have s1: "fst (CreateAsset (NewMemoryStore tick) ex_A101 2000 2001) =
      (NewMemoryStore tick)\<lparr>assets := (assets (NewMemoryStore tick))(''A101'' \<mapsto>
           ex_A101\<lparr>CreatedAt := 2000, UpdatedAt := 2001\<rparr>)\<rparr>"
    by (simp add: CreateAsset_def Let_def d)
  have s2: "CreateAsset ((NewMemoryStore tick)\<lparr>assets := (assets (NewMemoryStore tick))(''A101'' \<mapsto>
           ex_A101\<lparr>CreatedAt := 2000, UpdatedAt := 2001\<rparr>)\<rparr>) ex_new 2002 2003 =
      ((NewMemoryStore tick)\<lparr>assets := (assets (NewMemoryStore tick))(''A101'' \<mapsto>
           ex_new\<lparr>ID := ''A101'', CreatedAt := 2002, UpdatedAt := 2003\<rparr>), nextID := 101\<rparr>,
       ex_new\<lparr>ID := ''A101'', CreatedAt := 2002, UpdatedAt := 2003\<rparr>, None)"
    by (simp add: CreateAsset_def Let_def nextID_sample c i)
  show ?thesis
    unfolding s1 s2 by simp
qed

text \<open>
  Claim C9, amended. \<open>CreateAsset\<close> always returns nil. With an empty ID in the argument
  it increments the counter and stores the asset under the ID \<open>A\<close> followed by the new
  counter, in at least three digits, without a look at what the store holds under
  that ID. With an ID in the argument it stores the asset under that ID and leaves the
  counter alone, whether or not an asset was stored under the ID before.
\<close>

theorem CreateAsset_spec:
  "snd (snd (CreateAsset s asset now1 now2)) = None \<and>
   maintenance (fst (CreateAsset s asset now1 now2)) = maintenance s \<and>
   audit (fst (CreateAsset s asset now1 now2)) = audit s \<and>
   (ID asset = [] \<longrightarrow>
      nextID (fst (CreateAsset s asset now1 now2)) = incr (nextID s) \<and>
      fst (snd (CreateAsset s asset now1 now2)) =
        asset\<lparr>ID := ''A'' @ Sprintf_03d (incr (nextID s)), CreatedAt := now1, UpdatedAt := now2\<rparr> \<and>
      assets (fst (CreateAsset s asset now1 now2)) =
        (assets s)(''A'' @ Sprintf_03d (incr (nextID s)) \<mapsto>
          asset\<lparr>ID := ''A'' @ Sprintf_03d (incr (nextID s)), CreatedAt := now1, UpdatedAt := now2\<rparr>)) \<and>
   (ID asset \<noteq> [] \<longrightarrow>
      nextID (fst (CreateAsset s asset now1 now2)) = nextID s \<and>
      fst (snd (CreateAsset s asset now1 now2)) = asset\<lparr>CreatedAt := now1, UpdatedAt := now2\<rparr> \<and>
      assets (fst (CreateAsset s asset now1 now2)) =
        (assets s)(ID asset \<mapsto> asset\<lparr>CreatedAt := now1, UpdatedAt := now2\<rparr>)) \<and>
   (- (2 ^ 63) \<le> nextID s \<and> nextID s < 2 ^ 63 - 1 \<longrightarrow> incr (nextID s) = nextID s + 1)"
  by (simp add: CreateAsset_def Let_def incr_def wrap64_def)

theorem CreateAsset_spec_witness:
  "ID ex_new = [] \<and>
   snd (snd (CreateAsset (NewMemoryStore tick) ex_new 2000 2001)) = None \<and>
   nextID (fst (CreateAsset (NewMemoryStore tick) ex_new 2000 2001)) = 101 \<and>
   ID (fst (snd (CreateAsset (NewMemoryStore tick) ex_new 2000 2001))) = ''A101'' \<and>
   ID ex_renamed \<noteq> [] \<and> assets (NewMemoryStore tick) (ID ex_renamed) \<noteq> None \<and>
   snd (snd (CreateAsset (NewMemoryStore tick) ex_renamed 2000 2001)) = None \<and>
   assets (fst (CreateAsset (NewMemoryStore tick) ex_renamed 2000 2001)) ''A003'' =
     Some (ex_renamed\<lparr>CreatedAt := 2000, UpdatedAt := 2001\<rparr>)"
proof -
  have n: "nextID (NewMemoryStore tick) = 100"
    by (simp add: NewMemoryStore_def loadSampleData_def)
  have i: "Sprintf_03d 101 = ''101''"
    by code_simp
  have h: "assets (NewMemoryStore tick) (ID ex_renamed) \<noteq> None"
    by (simp add: sample_A003)
  have b: "incr (nextID (NewMemoryStore tick)) = 101"
    using CreateAsset_spec [of "NewMemoryStore tick" ex_new 2000 2001] n by simp
  from CreateAsset_spec [of "NewMemoryStore tick" ex_new 2000 2001]
  have c1: "snd (snd (CreateAsset (NewMemoryStore tick) ex_new 2000 2001)) = None \<and>
            nextID (fst (CreateAsset (NewMemoryStore tick) ex_new 2000 2001)) = 101 \<and>
            ID (fst (snd (CreateAsset (NewMemoryStore tick) ex_new 2000 2001))) = ''A101''"
    by (simp add: b i)
  from CreateAsset_spec [of "NewMemoryStore tick" ex_renamed 2000 2001]
  have c2: "snd (snd (CreateAsset (NewMemoryStore tick) ex_renamed 2000 2001)) = None \<and>
            assets (fst (CreateAsset (NewMemoryStore tick) ex_renamed 2000 2001)) ''A003'' =
              Some (ex_renamed\<lparr>CreatedAt := 2000, UpdatedAt := 2001\<rparr>)"
    by simp
  from h c1 c2 show ?thesis by simp
qed

section \<open>Generated IDs\<close>

lemma of_char_digit_char: "d < 10 \<Longrightarrow> of_char (digit_char d) = (48 + d :: nat)"
  by (simp add: digit_char_def)

lemma is_digit_digit_char: "d < 10 \<Longrightarrow> is_digit (digit_char d)"
  by (simp add: is_digit_def of_char_digit_char)

lemma digits_all_digit: "c \<in> set (digits n) \<Longrightarrow> is_digit c"
proof (induction n arbitrary: c rule: digits.induct)
  case (1 n)
  show ?case
  proof (cases "n < 10")
    case True
    with "1.prems" show ?thesis
      by (simp add: digits.simps [of n] is_digit_digit_char)
  next
    case False
    with "1.prems" have "c \<in> set (digits (n div 10)) \<or> c = digit_char (n mod 10)"
      by (auto simp: digits.simps [of n])
    then show ?thesis
      using "1.IH" [OF False] by (auto simp: is_digit_digit_char)
  qed
qed

lemma dec_val_snoc: "dec_val (ds @ [c]) = 10 * dec_val ds + (of_char c - 48)"
  by (simp add: dec_val_def)

lemma dec_val_digits: "dec_val (digits n) = n"
proof (induction n rule: digits.induct)
  case (1 n)
  show ?case
  proof (cases "n < 10")
    case True
    then show ?thesis
      by (simp add: digits.simps [of n] dec_val_def of_char_digit_char)
  next
    case False
    have "dec_val (digits n) = 10 * dec_val (digits (n div 10)) + (n mod 10)"
      using False by (simp add: digits.simps [of n] dec_val_snoc of_char_digit_char)
    also have "\<dots> = 10 * (n div 10) + n mod 10"
      using "1.IH" [OF False] by simp
    finally show ?thesis by simp
  qed
qed

lemma dec_val_zeros: "dec_val (replicate k (CHR ''0'') @ ds) = dec_val ds"
proof -
  have "foldl (\<lambda>acc c. 10 * acc + (of_char c - 48)) (0::nat) (replicate k (CHR ''0'')) = 0"
    by (induction k) simp_all
  then show ?thesis by (simp add: dec_val_def)
qed

lemma filter_zero_pad: "filter is_digit (zero_pad w (digits n)) = zero_pad w (digits n)"
proof -
  have "is_digit (CHR ''0'')" by (simp add: is_digit_def)
  then show ?thesis
    by (auto simp: zero_pad_def filter_id_conv digits_all_digit)
qed

lemma id_counter_Sprintf:
  assumes "0 \<le> n" "filter is_digit p = []"
  shows "id_counter (p @ Sprintf_03d n) = n"
  using assms
  by (simp add: id_counter_def Sprintf_03d_def filter_zero_pad)
     (simp add: zero_pad_def dec_val_zeros dec_val_digits)

lemma incr_small: "- (2 ^ 63) \<le> n \<Longrightarrow> n < 2 ^ 63 - 1 \<Longrightarrow> incr n = n + 1"
  by (simp add: incr_def wrap64_def)

lemma step_form:
  "snd (step s x) = Some g \<Longrightarrow>
     nextID (fst (step s x)) = incr (nextID s) \<and> g = id_prefix x @ Sprintf_03d (incr (nextID s))"
  by (cases x) (auto simp: CreateAsset_def CreateMaintenance_def CreateAuditEntry_def Let_def
      split: if_splits)

lemma step_none:
  "snd (step s x) = None \<Longrightarrow> nextID (fst (step s x)) = nextID s"
  by (cases x) (auto simp: CreateAsset_def CreateMaintenance_def CreateAuditEntry_def
      UpdateAsset_def DeleteAsset_def Let_def split: if_splits option.splits)

lemma id_prefix_no_digit: "filter is_digit (id_prefix x) = []"
  by (cases x) (simp_all add: is_digit_def)

lemma step_counter:
  assumes "0 \<le> nextID s" "nextID s < 2 ^ 63 - 1" "snd (step s x) = Some g"
  shows "nextID (fst (step s x)) = nextID s + 1" "id_counter g = nextID s + 1"
proof -
  have i: "incr (nextID s) = nextID s + 1"
    using assms(1,2) by (intro incr_small) simp_all
  from step_form [OF assms(3)] i
  show "nextID (fst (step s x)) = nextID s + 1" by simp
  from step_form [OF assms(3)] i have "g = id_prefix x @ Sprintf_03d (nextID s + 1)" by simp
  then show "id_counter g = nextID s + 1"
    using assms(1) by (simp add: id_counter_Sprintf id_prefix_no_digit)
qed

lemma run_counter:
  assumes "0 \<le> nextID s" "nextID s + int (length ops) < 2 ^ 63"
  shows "nextID (fst (run s ops)) = nextID s + int (length (snd (run s ops))) \<and>
         map id_counter (snd (run s ops)) =
           map (\<lambda>i. nextID s + 1 + int i) [0..<length (snd (run s ops))] \<and>
         length (snd (run s ops)) \<le> length ops"
  using assms
proof (induction ops arbitrary: s)
  case Nil
  then show ?case by simp
next
  case (Cons x xs)
  obtain s1 g where st: "step s x = (s1, g)" by (cases "step s x")
  obtain s2 gs where rn: "run s1 xs = (s2, gs)" by (cases "run s1 xs")
  have b: "nextID s < 2 ^ 63 - 1" using Cons.prems by simp
  show ?case
  proof (cases g)
    case None
    have n1: "nextID s1 = nextID s"
      using step_none [of s x] st None by simp
    have "0 \<le> nextID s1" "nextID s1 + int (length xs) < 2 ^ 63"
      using Cons.prems n1 by simp_all
    from Cons.IH [OF this] rn n1 show ?thesis
      by (simp add: st rn None)
  next
    case (Some i)
    have n1: "nextID s1 = nextID s + 1" and c: "id_counter i = nextID s + 1"
      using step_counter [OF Cons.prems(1) b, of x i] st Some by simp_all
    have "0 \<le> nextID s1" "nextID s1 + int (length xs) < 2 ^ 63"
      using Cons.prems n1 by simp_all
    from Cons.IH [OF this] rn
    have ih: "nextID s2 = nextID s1 + int (length gs)"
      "map id_counter gs = map (\<lambda>i. nextID s1 + 1 + int i) [0..<length gs]"
      "length gs \<le> length xs"
      by simp_all
    have "map (\<lambda>i. nextID s + 1 + int i) [0..<Suc (length gs)] =
          (nextID s + 1) # map (\<lambda>i. nextID s1 + 1 + int i) [0..<length gs]"
      by (simp add: map_upt_Suc n1 del: upt_Suc) 
    then show ?thesis
      using ih c n1 by (simp add: st rn Some del: upt_Suc)
  qed
qed

text \<open>
  Claim C10. In a run of calls from the new store, short enough for the 64-bit counter
  not to wrap, every call that generates an ID sets the counter one higher and spells
  the ID from the new counter, after \<open>A\<close>, \<open>M\<close> or \<open>AU\<close>; the IDs generated carry the
  numbers 101, 102, ... in the order of the calls, and no two of them are equal, of one
  kind or of two.
\<close>

theorem generated_ids_distinct:
  assumes "int (length ops) < 2 ^ 63 - 100"
  shows "distinct (snd (run (NewMemoryStore clock) ops)) \<and>
         map id_counter (snd (run (NewMemoryStore clock) ops)) =
           map (\<lambda>i. 101 + int i) [0..<length (snd (run (NewMemoryStore clock) ops))] \<and>
         nextID (fst (run (NewMemoryStore clock) ops)) =
           100 + int (length (snd (run (NewMemoryStore clock) ops))) \<and>
         (\<forall>pre x post g. ops = pre @ x # post \<and>
              snd (step (fst (run (NewMemoryStore clock) pre)) x) = Some g \<longrightarrow>
            nextID (fst (step (fst (run (NewMemoryStore clock) pre)) x)) =
              nextID (fst (run (NewMemoryStore clock) pre)) + 1 \<and>
            g = id_prefix x @ Sprintf_03d (nextID (fst (step (fst (run (NewMemoryStore clock) pre)) x))))"
proof -
  let ?N = "NewMemoryStore clock"
  have n: "nextID ?N = 100" by (simp add: NewMemoryStore_def loadSampleData_def)
  have r: "nextID (fst (run ?N xs)) = 100 + int (length (snd (run ?N xs))) \<and>
           map id_counter (snd (run ?N xs)) = map (\<lambda>i. 101 + int i) [0..<length (snd (run ?N xs))] \<and>
           length (snd (run ?N xs)) \<le> length xs"
    if "length xs \<le> length ops" for xs
  proof -
    have "0 \<le> nextID ?N" "nextID ?N + int (length xs) < 2 ^ 63"
      using n that assms by simp_all
    from run_counter [OF this] show ?thesis by (simp add: n)
  qed
  have m: "map id_counter (snd (run ?N ops)) = map (\<lambda>i. 101 + int i) [0..<length (snd (run ?N ops))]"
    using r [of ops] by simp
  have "distinct (map (\<lambda>i. 101 + int i) [0..<length (snd (run ?N ops))])"
    by (simp add: distinct_map inj_on_def)
  then have "distinct (map id_counter (snd (run ?N ops)))"
    using m by simp
  then have 1: "distinct (snd (run ?N ops))"
    by (simp add: distinct_map)
  have 3: "nextID (fst (run ?N ops)) = 100 + int (length (snd (run ?N ops)))"
    using r [of ops] by simp
  have 4: "nextID (fst (step (fst (run ?N pre)) x)) = nextID (fst (run ?N pre)) + 1 \<and>
           g = id_prefix x @ Sprintf_03d (nextID (fst (step (fst (run ?N pre)) x)))"
    if "ops = pre @ x # post \<and> snd (step (fst (run ?N pre)) x) = Some g" for pre x post g
  proof -
    have l: "length pre < length ops" using that by simp
    then have p: "nextID (fst (run ?N pre)) = 100 + int (length (snd (run ?N pre)))"
      "length (snd (run ?N pre)) \<le> length pre"
      using r [of pre] by simp_all
    have b0: "0 \<le> nextID (fst (run ?N pre))" using p by simp
    have b1: "nextID (fst (run ?N pre)) < 2 ^ 63 - 1" using p l assms by simp
    have g: "snd (step (fst (run ?N pre)) x) = Some g" using that by simp
    from step_counter(1) [OF b0 b1 g] step_form [OF g] show ?thesis by simp
  qed
  from 1 m 3 4 show ?thesis by blast
qed

theorem generated_ids_distinct_witness:
  "int (length ex_ops) < 2 ^ 63 - 100 \<and>
   snd (run (NewMemoryStore tick) ex_ops) = [''A101'', ''M102'', ''AU103'', ''A104''] \<and>
   distinct (snd (run (NewMemoryStore tick) ex_ops)) \<and>
   nextID (fst (run (NewMemoryStore tick) ex_ops)) = 104 \<and>
   ex_ops = ex_pre @ OpCreateMaintenance (sample_maintenance_A005 ! 0) 2002 # ex_post \<and>
   snd (step (fst (run (NewMemoryStore tick) ex_pre))
         (OpCreateMaintenance (sample_maintenance_A005 ! 0) 2002)) = Some ''M102'' \<and>
   nextID (fst (run (NewMemoryStore tick) ex_pre)) = 101 \<and>
   nextID (fst (step (fst (run (NewMemoryStore tick) ex_pre))
         (OpCreateMaintenance (sample_maintenance_A005 ! 0) 2002))) = 102"
proof -
  let ?x = "OpCreateMaintenance (sample_maintenance_A005 ! 0) 2002"
  have h: "int (length ex_ops) < 2 ^ 63 - 100" by (simp add: ex_ops_def)
  have v: "snd (run (NewMemoryStore tick) ex_ops) = [''A101'', ''M102'', ''AU103'', ''A104'']"
    by code_simp
  have p: "ex_ops = ex_pre @ ?x # ex_post"
    by (simp add: ex_ops_def ex_pre_def ex_post_def)
  have g: "snd (step (fst (run (NewMemoryStore tick) ex_pre)) ?x) = Some ''M102''"
    by code_simp
  have n: "nextID (fst (run (NewMemoryStore tick) ex_pre)) = 101"
    by code_simp
  from generated_ids_distinct [OF h, of tick]
  have c: "distinct (snd (run (NewMemoryStore tick) ex_ops)) \<and>
           nextID (fst (run (NewMemoryStore tick) ex_ops)) =
             100 + int (length (snd (run (NewMemoryStore tick) ex_ops)))"
    by blast
  from generated_ids_distinct [OF h, of tick] p g
  have d: "nextID (fst (step (fst (run (NewMemoryStore tick) ex_pre)) ?x)) =
           nextID (fst (run (NewMemoryStore tick) ex_pre)) + 1"
    by blast
  from h v c p g n d show ?thesis by simp
qed

end
